theory Spec2Isabelle
  imports Complex_Main "HOL-Library.Multiset" "HOL-Library.Sublist"
begin

section \<open>Data model (src/src/types/route.ts, lines 1-39)\<close>

text \<open>
  Numbers. The source computes with JavaScript numbers (IEEE doubles). The values stored
  in a matrix entry are modelled as reals, and the values the solver computes as a real
  or positive infinity: \<^verbatim>\<open>Infinity\<close> is the value that \<^verbatim>\<open>calculateCost\<close> and
  \<^verbatim>\<open>nearestNeighborTSP\<close> introduce, and the value of a sum of two finite doubles that
  leaves the range of the finite doubles. The only operations the solver applies to
  these values are addition and the comparison \<^verbatim>\<open><\<close>.

  \<open>MAX_VALUE\<close> is \<^verbatim>\<open>Number.MAX_VALUE\<close>, the largest finite double. A sum of two finite
  doubles is rounded to the nearest double, and it is \<^verbatim>\<open>Infinity\<close> exactly when it is at
  least \<open>MAX_VALUE\<close> plus half the distance to the next power of two, which is
  \<open>OVERFLOW\<close>. The rounding of a finite result is not modelled. Distances and durations
  are non-negative in the data model, so no sum leaves the range downwards and no
  \<^verbatim>\<open>NaN\<close> arises; these two values are not modelled.
\<close>

datatype jsnum = Fin real | Infinity

definition MAX_VALUE :: real where
  "MAX_VALUE = 2 ^ 1024 - 2 ^ 971"

definition OVERFLOW :: real where
  "OVERFLOW = MAX_VALUE + 2 ^ 970"

fun plus_js :: "jsnum \<Rightarrow> jsnum \<Rightarrow> jsnum" where
  "plus_js (Fin a) (Fin b) = (if OVERFLOW \<le> a + b then Infinity else Fin (a + b))"
| "plus_js _ _ = Infinity"

fun lt_js :: "jsnum \<Rightarrow> jsnum \<Rightarrow> bool" where
  "lt_js (Fin a) (Fin b) = (a < b)"
| "lt_js (Fin a) Infinity = True"
| "lt_js Infinity _ = False"

fun le_js :: "jsnum \<Rightarrow> jsnum \<Rightarrow> bool" where
  "le_js (Fin a) (Fin b) = (a \<le> b)"
| "le_js _ Infinity = True"
| "le_js Infinity (Fin b) = False"


text \<open>
  \<^verbatim>\<open>interface Location { id; address; lat?; lng?; isBase? }\<close>. An optional field is an
  option; \<^verbatim>\<open>l.isBase\<close> in a condition is true exactly when the field is present and true.
\<close>

record Location =
  loc_id :: string
  address :: string
  lat :: "real option"
  lng :: "real option"
  isBase :: "bool option"

definition truthy :: "bool option \<Rightarrow> bool" where
  "truthy b = (b = Some True)"

record TextValue =
  text_of :: string
  val :: real

record DistanceMatrixElement =
  distance :: TextValue
  duration :: TextValue
  status :: string

text \<open>
  \<^verbatim>\<open>interface DistanceMatrix { [fromId]: { [toId]: DistanceMatrixElement } }\<close>: a map of
  maps. \<^verbatim>\<open>matrix[fromId]?.[toId]\<close> is undefined when either key is missing. (A key that
  the object inherits from its prototype gives a value without the status \<^verbatim>\<open>'OK'\<close>, which
  every reader of the matrix treats as it treats a missing entry.)
\<close>

type_synonym DistanceMatrix = "string \<rightharpoonup> (string \<rightharpoonup> DistanceMatrixElement)"

definition lookup :: "DistanceMatrix \<Rightarrow> string \<Rightarrow> string \<Rightarrow> DistanceMatrixElement option" where
  "lookup matrix fromId toId =
     (case matrix fromId of None \<Rightarrow> None | Some row \<Rightarrow> row toId)"

record OptimizedRoute =
  order :: "string list"
  totalDistance :: jsnum
  totalTime :: jsnum
  totalCost :: jsnum

text \<open>\<^verbatim>\<open>throw new Error('Base location not found')\<close> is the only throw of the solver.\<close>

datatype error = MissingBaseError

section \<open>Cost model (TSPSolver.calculateCost, lines 118-126)\<close>

text \<open>
  The one addition of \<^verbatim>\<open>calculateCost\<close> is on two products that are at most
  \<open>0.3 * MAX_VALUE / 1000\<close> and \<open>0.7 * MAX_VALUE / 60\<close> for entries that are doubles, so it
  stays in range and is written as the addition of the reals.
\<close>

definition DISTANCE_WEIGHT :: real where
  "DISTANCE_WEIGHT = 0.3"

definition TIME_WEIGHT :: real where
  "TIME_WEIGHT = 0.7"

definition calculateCost :: "string \<Rightarrow> string \<Rightarrow> DistanceMatrix \<Rightarrow> jsnum" where
  "calculateCost fromId toId matrix =
     (case lookup matrix fromId toId of
        None \<Rightarrow> Infinity
      | Some element \<Rightarrow>
          if status element \<noteq> ''OK'' then Infinity
          else (let distance = val (distance element) / 1000;
                    time = val (duration element) / 60
                in Fin (DISTANCE_WEIGHT * distance + TIME_WEIGHT * time)))"

section \<open>Nearest-neighbour construction (TSPSolver.nearestNeighborTSP, lines 87-116)\<close>

text \<open>
  The inner \<^verbatim>\<open>for\<close> loop over the indices of \<^verbatim>\<open>unvisited\<close>, with its two variables
  \<^verbatim>\<open>nearestIndex\<close> and \<^verbatim>\<open>minCost\<close>, started at \<^verbatim>\<open>0\<close> and \<^verbatim>\<open>Infinity\<close>.
\<close>

definition scan_step :: "Location \<Rightarrow> Location list \<Rightarrow> DistanceMatrix \<Rightarrow> nat \<Rightarrow> nat \<times> jsnum \<Rightarrow> nat \<times> jsnum" where
  "scan_step current unvisited matrix i s =
     (case s of (nearestIndex, minCost) \<Rightarrow>
        (let cost = calculateCost (loc_id current) (loc_id (unvisited ! i)) matrix
         in if lt_js cost minCost then (i, cost) else (nearestIndex, minCost)))"

definition scan :: "Location \<Rightarrow> Location list \<Rightarrow> DistanceMatrix \<Rightarrow> nat \<times> jsnum" where
  "scan current unvisited matrix =
     fold (scan_step current unvisited matrix) [0..<length unvisited] (0, Infinity)"

definition nearestIndex :: "Location \<Rightarrow> Location list \<Rightarrow> DistanceMatrix \<Rightarrow> nat" where
  "nearestIndex current unvisited matrix = fst (scan current unvisited matrix)"


text \<open>\<^verbatim>\<open>unvisited.splice(k, 1)\<close>: the list without its element at index \<^verbatim>\<open>k\<close>.\<close>

definition splice1 :: "nat \<Rightarrow> 'a list \<Rightarrow> 'a list" where
  "splice1 k xs = take k xs @ drop (Suc k) xs"

lemma scan_fold_index:
  "fst (fold (scan_step current unvisited matrix) [0..<n] (0, Infinity)) \<le> n - 1"
proof (induction n)
  case 0
  show ?case by simp
next
  case (Suc n)
  obtain k c where s: "fold (scan_step current unvisited matrix) [0..<n] (0, Infinity) = (k, c)"
    by (cases "fold (scan_step current unvisited matrix) [0..<n] (0, Infinity)")
  with Suc have "k \<le> n - 1" by simp
  then have "fst (scan_step current unvisited matrix n (k, c)) \<le> n"
    by (auto simp: scan_step_def Let_def)
  then show ?case
    by (simp add: s)
qed

lemma nearestIndex_less:
  "unvisited \<noteq> [] \<Longrightarrow> nearestIndex current unvisited matrix < length unvisited"
  using scan_fold_index [of current unvisited matrix "length unvisited"]
  by (cases unvisited) (simp_all add: nearestIndex_def scan_def)

text \<open>
  The \<^verbatim>\<open>while (unvisited.length > 0)\<close> loop, on its variables \<^verbatim>\<open>unvisited\<close>, \<^verbatim>\<open>route\<close>
  and \<^verbatim>\<open>current\<close>; it returns \<^verbatim>\<open>route\<close>.
\<close>

function nn_while :: "Location list \<Rightarrow> string list \<Rightarrow> Location \<Rightarrow> DistanceMatrix \<Rightarrow> string list" where
  "nn_while unvisited route current matrix =
     (if length unvisited > 0
      then (let k = nearestIndex current unvisited matrix;
                nearest = unvisited ! k
            in nn_while (splice1 k unvisited) (route @ [loc_id nearest]) nearest matrix)
      else route)"
  by pat_completeness auto
termination
proof (relation "measure (\<lambda>(unvisited, route, current, matrix). length unvisited)")
  show "wf (measure (\<lambda>(unvisited, route, current, matrix). length unvisited))"
    by simp
next
  fix unvisited :: "Location list" and route :: "string list"
    and current :: Location and matrix :: DistanceMatrix and k nearest
  assume "0 < length unvisited" and k: "k = nearestIndex current unvisited matrix"
  then have "k < length unvisited"
    using nearestIndex_less [of unvisited current matrix] by simp
  then show "((splice1 k unvisited, route @ [loc_id nearest], nearest, matrix),
              (unvisited, route, current, matrix))
             \<in> measure (\<lambda>(unvisited, route, current, matrix). length unvisited)"
    by (simp add: splice1_def)
qed

declare nn_while.simps [simp del]

definition nearestNeighborTSP :: "Location \<Rightarrow> Location list \<Rightarrow> DistanceMatrix \<Rightarrow> string list" where
  "nearestNeighborTSP base deliveries matrix =
     nn_while deliveries [loc_id base] base matrix @ [loc_id base]"

section \<open>Aggregation (TSPSolver.calculateRouteTotals, lines 128-149)\<close>

text \<open>
  The body of the \<^verbatim>\<open>for\<close> loop on the three accumulators (primed, the plain names
  being the fields of the result). The loop runs over
  \<^verbatim>\<open>i < order.length - 1\<close>; for an empty list the bound is negative in the source and
  \<open>0\<close> here, and the loop body does not run in either.
\<close>

definition totals_step :: "string list \<Rightarrow> DistanceMatrix \<Rightarrow> nat \<Rightarrow> jsnum \<times> jsnum \<times> jsnum \<Rightarrow> jsnum \<times> jsnum \<times> jsnum" where
  "totals_step tour matrix i s =
     (case s of (totalDistance', totalTime', totalCost') \<Rightarrow>
        (let fromId = tour ! i; toId = tour ! (i + 1)
         in case lookup matrix fromId toId of
              None \<Rightarrow> (totalDistance', totalTime', totalCost')
            | Some element \<Rightarrow>
                if status element = ''OK''
                then (plus_js totalDistance' (Fin (val (distance element) / 1000)),
                      plus_js totalTime' (Fin (val (duration element) / 60)),
                      plus_js totalCost' (calculateCost fromId toId matrix))
                else (totalDistance', totalTime', totalCost')))"

definition calculateRouteTotals :: "string list \<Rightarrow> DistanceMatrix \<Rightarrow> jsnum \<times> jsnum \<times> jsnum" where
  "calculateRouteTotals tour matrix =
     fold (totals_step tour matrix) [0..<length tour - 1] (Fin 0, Fin 0, Fin 0)"

section \<open>Orchestration (TSPSolver.optimizeRoute, lines 46-85)\<close>

text \<open>The rejected promise of the \<^verbatim>\<open>async\<close> function is the left injection.\<close>

definition optimizeRoute :: "Location list \<Rightarrow> DistanceMatrix \<Rightarrow> error + OptimizedRoute" where
  "optimizeRoute locations distanceMatrix =
     (if length locations \<le> 2
      then Inr \<lparr>order = map loc_id locations,
                totalDistance = Fin 0, totalTime = Fin 0, totalCost = Fin 0\<rparr>
      else (let baseLocation = find (\<lambda>l. truthy (isBase l)) locations;
                deliveryLocations = filter (\<lambda>l. \<not> truthy (isBase l)) locations
            in case baseLocation of
                 None \<Rightarrow> Inl MissingBaseError
               | Some base \<Rightarrow>
                   (let optimizedOrder = nearestNeighborTSP base deliveryLocations distanceMatrix
                    in case calculateRouteTotals optimizedOrder distanceMatrix of
                         (totalDistance', totalTime', totalCost') \<Rightarrow>
                           Inr \<lparr>order = optimizedOrder, totalDistance = totalDistance',
                                totalTime = totalTime', totalCost = totalCost'\<rparr>)))"

section \<open>2-opt refinement (TSPSolver.optimize2Opt, swap2Opt, calculateRouteCost, lines 152-193)\<close>

text \<open>
  \<^verbatim>\<open>slice(i, j + 1).reverse()\<close> spliced back over \<^verbatim>\<open>j - i + 1\<close> elements at \<^verbatim>\<open>i\<close>; a
  negative delete count removes nothing, as the truncated subtraction does.
\<close>

definition swap2Opt :: "string list \<Rightarrow> nat \<Rightarrow> nat \<Rightarrow> string list" where
  "swap2Opt route i j =
     (let segment = rev (take (j + 1 - i) (drop i route))
      in take i route @ segment @ drop (i + (j + 1 - i)) route)"

definition calculateRouteCost :: "string list \<Rightarrow> DistanceMatrix \<Rightarrow> jsnum" where
  "calculateRouteCost route matrix =
     fold (\<lambda>i cost. plus_js cost (calculateCost (route ! i) (route ! (i + 1)) matrix))
       [0..<length route - 1] (Fin 0)"

text \<open>
  The body of the two nested \<^verbatim>\<open>for\<close> loops on the variables \<^verbatim>\<open>bestRoute\<close>, \<^verbatim>\<open>bestCost\<close>
  and \<^verbatim>\<open>improved\<close>, and one pass of the loops; \<open>n\<close> is \<^verbatim>\<open>route.length\<close>, the length of
  the argument of \<^verbatim>\<open>optimize2Opt\<close>.
\<close>

definition opt_body :: "DistanceMatrix \<Rightarrow> nat \<Rightarrow> nat \<Rightarrow> string list \<times> jsnum \<times> bool \<Rightarrow> string list \<times> jsnum \<times> bool" where
  "opt_body matrix i j s =
     (case s of (bestRoute, bestCost, improved) \<Rightarrow>
        (let newRoute = swap2Opt bestRoute i j;
             newCost = calculateRouteCost newRoute matrix
         in if lt_js newCost bestCost then (newRoute, newCost, True)
            else (bestRoute, bestCost, improved)))"

definition opt_pass :: "nat \<Rightarrow> DistanceMatrix \<Rightarrow> string list \<times> jsnum \<times> bool \<Rightarrow> string list \<times> jsnum \<times> bool" where
  "opt_pass n matrix s =
     fold (\<lambda>i s. fold (\<lambda>j s. opt_body matrix i j s) [i + 1..<n - 1] s) [1..<n - 2] s"

text \<open>
  The \<^verbatim>\<open>while (improved)\<close> loop. The source puts no bound on the number of passes, so
  the loop is a partial function: \<open>None\<close> stands for a loop that does not end.
\<close>

partial_function (option) opt_while :: "nat \<Rightarrow> DistanceMatrix \<Rightarrow> string list \<Rightarrow> jsnum \<Rightarrow> string list option" where
  "opt_while n matrix bestRoute bestCost =
     (case opt_pass n matrix (bestRoute, bestCost, False) of
        (bestRoute', bestCost', improved) \<Rightarrow>
          if improved then opt_while n matrix bestRoute' bestCost' else Some bestRoute')"

declare opt_while.simps [code]

definition optimize2Opt :: "string list \<Rightarrow> DistanceMatrix \<Rightarrow> string list option" where
  "optimize2Opt route matrix =
     opt_while (length route) matrix route (calculateRouteCost route matrix)"

section \<open>Notions of the specification\<close>

text \<open>
  The consecutive pairs of a tour, the pairs with a usable matrix entry (present, with
  status \<open>OK\<close>), and the sum of the cost-model values over a list of pairs, starting
  from zero as the loops of the source do.
\<close>

definition consecutive_pairs :: "string list \<Rightarrow> (string \<times> string) list" where
  "consecutive_pairs tour = zip tour (tl tour)"

definition entry_ok :: "DistanceMatrix \<Rightarrow> string \<times> string \<Rightarrow> bool" where
  "entry_ok matrix p =
     (case lookup matrix (fst p) (snd p) of None \<Rightarrow> False | Some element \<Rightarrow> status element = ''OK'')"

definition sum_costs :: "DistanceMatrix \<Rightarrow> (string \<times> string) list \<Rightarrow> jsnum" where
  "sum_costs matrix ps = fold (\<lambda>p acc. plus_js acc (calculateCost (fst p) (snd p) matrix)) ps (Fin 0)"




text \<open>One step of the \<^verbatim>\<open>totalCost\<close> accumulator alone.\<close>

definition cost_step :: "DistanceMatrix \<Rightarrow> string \<times> string \<Rightarrow> jsnum \<Rightarrow> jsnum" where
  "cost_step m p acc = (if entry_ok m p then plus_js acc (calculateCost (fst p) (snd p) m) else acc)"



section \<open>Invariants of the 2-opt loops\<close>

text \<open>
  What every state of the loops keeps from the argument \<open>route\<close>, and how a state relates
  to an earlier one: nothing was accepted, or the flag is set and the cost is lower.
\<close>

definition opt_inv :: "string list \<Rightarrow> DistanceMatrix \<Rightarrow> string list \<times> jsnum \<times> bool \<Rightarrow> bool" where
  "opt_inv route matrix s =
     (case s of (bestRoute, bestCost, improved) \<Rightarrow>
        length bestRoute = length route \<and> mset bestRoute = mset route \<and>
        hd bestRoute = hd route \<and> last bestRoute = last route \<and>
        bestCost = calculateRouteCost bestRoute matrix)"

definition opt_progress :: "string list \<times> jsnum \<times> bool \<Rightarrow> string list \<times> jsnum \<times> bool \<Rightarrow> bool" where
  "opt_progress s s' = (s' = s \<or> snd (snd s') \<and> lt_js (fst (snd s')) (fst (snd s)))"

section \<open>Fixtures\<close>

text \<open>
  The scenario of the specification: base \<open>B\<close> and deliveries \<open>D1\<close>, \<open>D2\<close> with the costs
  \<open>B\<rightarrow>D1 = 1\<close>, \<open>B\<rightarrow>D2 = 5\<close>, \<open>D1\<rightarrow>D2 = 1\<close>, \<open>D2\<rightarrow>D1 = 1\<close>, \<open>D1\<rightarrow>B = 1\<close>, \<open>D2\<rightarrow>B = 5\<close>
  (1000 m in 60 s cost \<open>0.3 + 0.7 = 1\<close>).
\<close>

definition mkLocation :: "string \<Rightarrow> bool option \<Rightarrow> Location" where
  "mkLocation i b = \<lparr>loc_id = i, address = [], lat = None, lng = None, isBase = b\<rparr>"

definition mkElement :: "real \<Rightarrow> real \<Rightarrow> string \<Rightarrow> DistanceMatrixElement" where
  "mkElement d t st =
     \<lparr>distance = \<lparr>text_of = [], val = d\<rparr>, duration = \<lparr>text_of = [], val = t\<rparr>, status = st\<rparr>"

definition scenario_matrix :: DistanceMatrix where
  "scenario_matrix =
     [''B'' \<mapsto> [''D1'' \<mapsto> mkElement 1000 60 ''OK'', ''D2'' \<mapsto> mkElement 5000 300 ''OK''],
      ''D1'' \<mapsto> [''D2'' \<mapsto> mkElement 1000 60 ''OK'', ''B'' \<mapsto> mkElement 1000 60 ''OK''],
      ''D2'' \<mapsto> [''D1'' \<mapsto> mkElement 1000 60 ''OK'', ''B'' \<mapsto> mkElement 5000 300 ''OK'']]"

definition scenario_stops :: "Location list" where
  "scenario_stops =
     [mkLocation ''B'' (Some True), mkLocation ''D1'' None, mkLocation ''D2'' (Some False)]"

text \<open>A matrix on which the tour \<open>B, D2, D1, B\<close> costs 15 and \<open>B, D1, D2, B\<close> costs 3.\<close>

definition crossing_matrix :: DistanceMatrix where
  "crossing_matrix =
     [''B'' \<mapsto> [''D1'' \<mapsto> mkElement 1000 60 ''OK'', ''D2'' \<mapsto> mkElement 5000 300 ''OK''],
      ''D1'' \<mapsto> [''D2'' \<mapsto> mkElement 1000 60 ''OK'', ''B'' \<mapsto> mkElement 5000 300 ''OK''],
      ''D2'' \<mapsto> [''D1'' \<mapsto> mkElement 5000 300 ''OK'', ''B'' \<mapsto> mkElement 1000 60 ''OK'']]"




section \<open>The order on costs and the range of the sums\<close>



lemma OVERFLOW_gt: "1000000 < OVERFLOW"
  by (simp add: OVERFLOW_def MAX_VALUE_def)

lemma not_overflow_small: "x \<le> 1000000 \<Longrightarrow> \<not> OVERFLOW \<le> x"
  using OVERFLOW_gt by simp


lemma lt_js_irrefl: "\<not> lt_js a a"
  by (cases a) simp_all

lemma lt_js_trans: "lt_js a b \<Longrightarrow> lt_js b c \<Longrightarrow> lt_js a c"
  by (cases a; cases b; cases c) simp_all



lemma le_lt_js_trans: "le_js a b \<Longrightarrow> lt_js b c \<Longrightarrow> lt_js a c"
  by (cases a; cases b; cases c) simp_all

lemma le_js_trans: "le_js a b \<Longrightarrow> le_js b c \<Longrightarrow> le_js a c"
  by (cases a; cases b; cases c) simp_all


lemma lt_js_imp_le: "lt_js a b \<Longrightarrow> le_js a b"
  by (cases a; cases b) simp_all

lemma le_js_refl: "le_js a a"
  by (cases a) simp_all

section \<open>The degenerate case and the error\<close>

text \<open>
  C9. For a stops list of at most two elements, whatever the matrix, \<open>optimizeRoute\<close>
  returns the identifiers of the stops in their input order (no closing base is
  appended) and the three totals are zero.
\<close>

theorem optimizeRoute_degenerate:
  "length stops \<le> 2 \<Longrightarrow>
   optimizeRoute stops m =
     Inr \<lparr>order = map loc_id stops, totalDistance = Fin 0, totalTime = Fin 0, totalCost = Fin 0\<rparr>"
  by (simp add: optimizeRoute_def)

theorem optimizeRoute_degenerate_witness:
  "length [mkLocation ''B'' (Some True), mkLocation ''D1'' None] \<le> 2 \<and>
   optimizeRoute [mkLocation ''B'' (Some True), mkLocation ''D1'' None] scenario_matrix =
     Inr \<lparr>order = [''B'', ''D1''], totalDistance = Fin 0, totalTime = Fin 0, totalCost = Fin 0\<rparr>"
  using optimizeRoute_degenerate
          [of "[mkLocation ''B'' (Some True), mkLocation ''D1'' None]" scenario_matrix]
  by (simp add: mkLocation_def)

text \<open>
  C3, as the specification states it, fails on a list of at most two stops with no base:
  the length test comes first in \<open>optimizeRoute\<close> and the degenerate result is returned.
\<close>

theorem optimizeRoute_no_base_counterexample:
  "find (\<lambda>l. truthy (isBase l)) [mkLocation ''D1'' None, mkLocation ''D2'' (Some False)] = None \<and>
   optimizeRoute [mkLocation ''D1'' None, mkLocation ''D2'' (Some False)] scenario_matrix =
     Inr \<lparr>order = [''D1'', ''D2''], totalDistance = Fin 0, totalTime = Fin 0, totalCost = Fin 0\<rparr>"
  by (simp add: optimizeRoute_def mkLocation_def truthy_def)

text \<open>
  C3, amended. \<open>optimizeRoute\<close> fails with \<open>MissingBaseError\<close> exactly when the list has
  more than two stops and none of them has \<open>isBase = true\<close>; in every other case (at most
  two stops, or some stop flagged as base) it returns a result, for every matrix.
  \<open>MissingBaseError\<close> is the only value of the error type, and a failure carries no
  partial result.
\<close>

theorem optimizeRoute_error_iff:
  "(optimizeRoute stops m = Inl MissingBaseError \<longleftrightarrow>
      2 < length stops \<and> \<not> (\<exists>l \<in> set stops. isBase l = Some True)) \<and>
   ((\<exists>r. optimizeRoute stops m = Inr r) \<longleftrightarrow>
      length stops \<le> 2 \<or> (\<exists>l \<in> set stops. isBase l = Some True))"
proof -
  have f: "(find (\<lambda>l. truthy (isBase l)) stops = None) =
           (\<not> (\<exists>l \<in> set stops. isBase l = Some True))"
    by (auto simp: find_None_iff truthy_def)
  show ?thesis
  proof (cases "find (\<lambda>l. truthy (isBase l)) stops")
    case None
    then show ?thesis using f
      by (simp add: optimizeRoute_def)
  next
    case (Some base)
    then show ?thesis using f
      by (simp add: optimizeRoute_def Let_def split: prod.splits)
  qed
qed

section \<open>The cost model\<close>

text \<open>
  C4. \<open>calculateCost\<close> is positive infinity exactly when the directed entry
  \<open>matrix[fromId][toId]\<close> is absent or its status is not \<open>OK\<close>; for an entry with status
  \<open>OK\<close> it is \<open>0.3 * (distance / 1000) + 0.7 * (duration / 60)\<close>, which is \<open>0\<close> for zero
  distance and zero duration. The result is a function of the three arguments only.
\<close>

theorem calculateCost_spec:
  "(calculateCost fromId toId m = Infinity \<longleftrightarrow>
      (lookup m fromId toId = None \<or> (\<exists>e. lookup m fromId toId = Some e \<and> status e \<noteq> ''OK''))) \<and>
   (\<forall>e. lookup m fromId toId = Some e \<and> status e = ''OK'' \<longrightarrow>
      calculateCost fromId toId m =
        Fin (0.3 * (val (distance e) / 1000) + 0.7 * (val (duration e) / 60))) \<and>
   (\<forall>e. lookup m fromId toId = Some e \<and> status e = ''OK'' \<and>
        val (distance e) = 0 \<and> val (duration e) = 0 \<longrightarrow>
      calculateCost fromId toId m = Fin 0)"
  by (auto simp: calculateCost_def DISTANCE_WEIGHT_def TIME_WEIGHT_def Let_def split: option.splits)

theorem calculateCost_spec_witness:
  "calculateCost ''B'' ''D2'' scenario_matrix = Fin 5 \<and>
   calculateCost ''B'' ''B'' scenario_matrix = Infinity \<and>
   calculateCost ''X'' ''Y'' [''X'' \<mapsto> [''Y'' \<mapsto> mkElement 0 0 ''OK'']] = Fin 0 \<and>
   calculateCost ''X'' ''Y'' [''X'' \<mapsto> [''Y'' \<mapsto> mkElement 0 0 ''ZERO_RESULTS'']] = Infinity"
  using calculateCost_spec [of "''B''" "''D2''" scenario_matrix]
    calculateCost_spec [of "''B''" "''B''" scenario_matrix]
    calculateCost_spec [of "''X''" "''Y''" "[''X'' \<mapsto> [''Y'' \<mapsto> mkElement 0 0 ''OK'']]"]
    calculateCost_spec [of "''X''" "''Y''" "[''X'' \<mapsto> [''Y'' \<mapsto> mkElement 0 0 ''ZERO_RESULTS'']]"]
  by (simp add: lookup_def scenario_matrix_def mkElement_def)

section \<open>Nearest-neighbour construction\<close>

lemma find_filter: "find P xs = (case filter P xs of [] \<Rightarrow> None | x # _ \<Rightarrow> Some x)"
  by (induction xs) auto

lemma mset_splice1: "k < length xs \<Longrightarrow> add_mset (xs ! k) (mset (splice1 k xs)) = mset xs"
proof -
  assume k: "k < length xs"
  then have "xs = take k xs @ xs ! k # drop (Suc k) xs"
    by (rule id_take_nth_drop)
  then have "mset xs = mset (take k xs @ xs ! k # drop (Suc k) xs)"
    by simp
  then show ?thesis
    by (simp add: splice1_def)
qed

lemma length_splice1: "k < length xs \<Longrightarrow> length (splice1 k xs) = length xs - 1"
  by (simp add: splice1_def)


lemma nn_while_step:
  "unvisited \<noteq> [] \<Longrightarrow>
   nn_while unvisited route current m =
     nn_while (splice1 (nearestIndex current unvisited m) unvisited)
       (route @ [loc_id (unvisited ! nearestIndex current unvisited m)])
       (unvisited ! nearestIndex current unvisited m) m"
  by (subst nn_while.simps) (simp add: Let_def)

lemma nn_while_Nil: "nn_while [] route current m = route"
  by (subst nn_while.simps) simp

lemma nn_while_perm:
  "\<exists>p. nn_while unvisited route current m = route @ p \<and> mset p = mset (map loc_id unvisited)"
proof (induction "length unvisited" arbitrary: unvisited route current)
  case 0
  then show ?case by (simp add: nn_while_Nil)
next
  case (Suc n)
  let ?k = "nearestIndex current unvisited m"
  from Suc.hyps(2) have ne: "unvisited \<noteq> []" by auto
  then have k: "?k < length unvisited" by (rule nearestIndex_less)
  with Suc.hyps(2) have "n = length (splice1 ?k unvisited)"
    by (simp add: length_splice1)
  from Suc.hyps(1) [OF this, of "route @ [loc_id (unvisited ! ?k)]" "unvisited ! ?k"]
  obtain p where p:
    "nn_while (splice1 ?k unvisited) (route @ [loc_id (unvisited ! ?k)]) (unvisited ! ?k) m
       = (route @ [loc_id (unvisited ! ?k)]) @ p"
    "mset p = mset (map loc_id (splice1 ?k unvisited))"
    by blast
  have "mset (map loc_id unvisited) =
        image_mset loc_id (add_mset (unvisited ! ?k) (mset (splice1 ?k unvisited)))"
    using mset_splice1 [OF k] by simp
  then have "mset (loc_id (unvisited ! ?k) # p) = mset (map loc_id unvisited)"
    using p(2) by simp
  moreover have "nn_while unvisited route current m = route @ (loc_id (unvisited ! ?k) # p)"
    using nn_while_step [OF ne, of route current m] p(1) by simp
  ultimately show ?case by blast
qed

lemma nearestNeighborTSP_shape:
  "\<exists>p. nearestNeighborTSP base deliveries m = loc_id base # p @ [loc_id base] \<and>
       mset p = mset (map loc_id deliveries)"
  using nn_while_perm [of deliveries "[loc_id base]" base m]
  by (auto simp: nearestNeighborTSP_def)





lemmas nn_eval = nearestNeighborTSP_def nn_while_step nn_while_Nil nearestIndex_def scan_def
  scan_step_def splice1_def calculateCost_def lookup_def mkLocation_def mkElement_def
  scenario_matrix_def DISTANCE_WEIGHT_def TIME_WEIGHT_def upt_rec


text \<open>With no matrix entry at all, the deliveries are visited in their input order.\<close>

lemma nn_infinite_example:
  "nearestNeighborTSP (mkLocation ''B'' (Some True))
     [mkLocation ''D2'' None, mkLocation ''D1'' None] Map.empty = [''B'', ''D2'', ''D1'', ''B'']"
  by (simp add: nn_eval)

section \<open>The tour returned by the orchestrator\<close>

text \<open>
  C1, as the specification states it, fails for a base and a single delivery: the list
  has two stops, and the degenerate branch returns the two identifiers as they are. It
  also fails for the length when two stops are flagged: the second flagged stop is
  neither the base nor a delivery, and the order is one element shorter.
\<close>

theorem optimizeRoute_two_stops_counterexample:
  "length (filter (\<lambda>l. truthy (isBase l)) [mkLocation ''B'' (Some True), mkLocation ''D1'' None]) = 1 \<and>
   distinct (map loc_id [mkLocation ''B'' (Some True), mkLocation ''D1'' None]) \<and>
   optimizeRoute [mkLocation ''B'' (Some True), mkLocation ''D1'' None] scenario_matrix =
     Inr \<lparr>order = [''B'', ''D1''], totalDistance = Fin 0, totalTime = Fin 0, totalCost = Fin 0\<rparr> \<and>
   last [''B'', ''D1''] \<noteq> ''B'' \<and>
   length [''B'', ''D1''] \<noteq> length [mkLocation ''B'' (Some True), mkLocation ''D1'' None] + 1 \<and>
   distinct (map loc_id
     [mkLocation ''B1'' (Some True), mkLocation ''B2'' (Some True), mkLocation ''D1'' None]) \<and>
   optimizeRoute
     [mkLocation ''B1'' (Some True), mkLocation ''B2'' (Some True), mkLocation ''D1'' None]
     Map.empty =
     Inr \<lparr>order = [''B1'', ''D1'', ''B1''],
          totalDistance = Fin 0, totalTime = Fin 0, totalCost = Fin 0\<rparr> \<and>
   length [''B1'', ''D1'', ''B1''] \<noteq>
     length [mkLocation ''B1'' (Some True), mkLocation ''B2'' (Some True), mkLocation ''D1'' None] + 1"
proof -
  have "nearestNeighborTSP (mkLocation ''B1'' (Some True)) [mkLocation ''D1'' None] Map.empty =
        [''B1'', ''D1'', ''B1'']"
    by (simp add: nn_eval)
  moreover have "calculateRouteTotals [''B1'', ''D1'', ''B1''] Map.empty = (Fin 0, Fin 0, Fin 0)"
    by (simp add: calculateRouteTotals_def totals_step_def Let_def upt_rec lookup_def)
  ultimately have
    "optimizeRoute
       [mkLocation ''B1'' (Some True), mkLocation ''B2'' (Some True), mkLocation ''D1'' None]
       Map.empty =
     Inr \<lparr>order = [''B1'', ''D1'', ''B1''],
          totalDistance = Fin 0, totalTime = Fin 0, totalCost = Fin 0\<rparr>"
    by (simp add: optimizeRoute_def truthy_def Let_def) (simp add: mkLocation_def)
  then show ?thesis
    by (simp add: optimizeRoute_def truthy_def) (simp add: mkLocation_def)
qed

text \<open>
  C1, amended. For a list of more than two stops with exactly one flagged base and
  distinct identifiers, and every matrix, \<open>optimizeRoute\<close> returns a result whose order
  starts and ends with the identifier of the base, has one element more than there are
  stops, and contains the identifier of every stop that is not the base exactly once.
\<close>

theorem optimizeRoute_tour:
  assumes len: "2 < length stops"
    and one: "length (filter (\<lambda>l. truthy (isBase l)) stops) = 1"
    and dist: "distinct (map loc_id stops)"
  shows "\<exists>r base. optimizeRoute stops m = Inr r \<and>
      filter (\<lambda>l. truthy (isBase l)) stops = [base] \<and>
      hd (order r) = loc_id base \<and> last (order r) = loc_id base \<and>
      length (order r) = length stops + 1 \<and>
      (\<forall>l \<in> set stops. \<not> truthy (isBase l) \<longrightarrow> count_list (order r) (loc_id l) = 1)"
proof -
  let ?P = "\<lambda>l. truthy (isBase l)"
  let ?ds = "filter (\<lambda>l. \<not> ?P l) stops"
  from one obtain base where fb: "filter ?P stops = [base]"
    by (cases "filter ?P stops") auto
  then have find: "find ?P stops = Some base"
    by (simp add: find_filter)
  have "base \<in> set (filter ?P stops)"
    by (simp add: fb)
  then have base: "base \<in> set stops" "?P base"
    by simp_all
  obtain p where p: "nearestNeighborTSP base ?ds m = loc_id base # p @ [loc_id base]"
    "mset p = mset (map loc_id ?ds)"
    using nearestNeighborTSP_shape by blast
  obtain td tt tc where t: "calculateRouteTotals (nearestNeighborTSP base ?ds m) m = (td, tt, tc)"
    by (cases "calculateRouteTotals (nearestNeighborTSP base ?ds m) m")
  let ?r = "\<lparr>order = nearestNeighborTSP base ?ds m, totalDistance = td, totalTime = tt, totalCost = tc\<rparr>"
  have r: "optimizeRoute stops m = Inr ?r"
    using len find t by (simp add: optimizeRoute_def Let_def)
  have "length p = length ?ds"
    using p(2) by (metis length_map size_mset)
  moreover have "length stops = length (filter ?P stops) + length ?ds"
    by (rule sum_length_filter_compl [symmetric])
  ultimately have length: "length (order ?r) = length stops + 1"
    using p(1) one by simp
  have count: "count_list (order ?r) (loc_id l) = 1" if l: "l \<in> set stops" "\<not> ?P l" for l
  proof -
    from l base have "l \<noteq> base" by auto
    with dist l(1) base(1) have ne: "loc_id l \<noteq> loc_id base"
      by (auto simp: distinct_map dest: inj_onD)
    have "distinct (map loc_id ?ds)"
      using dist by (rule distinct_map_filter)
    moreover have "loc_id l \<in> set (map loc_id ?ds)"
      using l by auto
    ultimately have "count (mset (map loc_id ?ds)) (loc_id l) = 1"
      by (simp add: distinct_count_atmost_1)
    then have "count_list p (loc_id l) = 1"
      using p(2) by (metis count_mset)
    then show ?thesis
      using p(1) ne by simp
  qed
  show ?thesis
    using r fb length count p(1) by (intro exI [of _ ?r] exI [of _ base]) simp
qed

theorem optimizeRoute_tour_witness:
  "2 < length scenario_stops \<and>
   length (filter (\<lambda>l. truthy (isBase l)) scenario_stops) = 1 \<and>
   distinct (map loc_id scenario_stops) \<and>
   (\<exists>r. optimizeRoute scenario_stops scenario_matrix = Inr r \<and>
        order r = [''B'', ''D1'', ''D2'', ''B''])"
proof -
  have h: "2 < length scenario_stops"
    "length (filter (\<lambda>l. truthy (isBase l)) scenario_stops) = 1"
    "distinct (map loc_id scenario_stops)"
    by (simp_all add: scenario_stops_def mkLocation_def truthy_def)
  have o: "nearestNeighborTSP (mkLocation ''B'' (Some True))
     [mkLocation ''D1'' None, mkLocation ''D2'' (Some False)] scenario_matrix = [''B'', ''D1'', ''D2'', ''B'']"
    by (simp add: nn_eval)
  from optimizeRoute_tour [OF h, of scenario_matrix]
  obtain r where "optimizeRoute scenario_stops scenario_matrix = Inr r"
    by blast
  moreover from this have "order r = [''B'', ''D1'', ''D2'', ''B'']"
    using o by (auto simp: optimizeRoute_def scenario_stops_def Let_def truthy_def mkLocation_def split: prod.splits)
  ultimately show ?thesis
    using h by blast
qed

section \<open>Aggregation of the totals\<close>

lemma fold_invariant:
  "I s \<Longrightarrow> (\<And>x s. x \<in> set xs \<Longrightarrow> I s \<Longrightarrow> I (f x s)) \<Longrightarrow> I (fold f xs s)"
  by (induction xs arbitrary: s) simp_all

lemma index_pairs:
  "map (\<lambda>i. (tour ! i, tour ! (i + 1))) [0..<length tour - 1] = consecutive_pairs tour"
  by (rule nth_equalityI) (simp_all add: consecutive_pairs_def nth_tl)

lemma calculateRouteCost_pairs:
  "calculateRouteCost tour m = sum_costs m (consecutive_pairs tour)"
proof -
  have "calculateRouteCost tour m =
        fold ((\<lambda>p acc. plus_js acc (calculateCost (fst p) (snd p) m)) \<circ> (\<lambda>i. (tour ! i, tour ! (i + 1))))
          [0..<length tour - 1] (Fin 0)"
    by (simp add: calculateRouteCost_def comp_def)
  also have "\<dots> = sum_costs m (map (\<lambda>i. (tour ! i, tour ! (i + 1))) [0..<length tour - 1])"
    by (simp only: sum_costs_def fold_map)
  finally show ?thesis
    by (simp only: index_pairs)
qed

lemma totals_step_cost:
  "snd (snd (totals_step tour m i s)) = cost_step m (tour ! i, tour ! (i + 1)) (snd (snd s))"
  by (cases s) (simp add: totals_step_def cost_step_def entry_ok_def Let_def split: option.splits)

lemma totals_fold_cost:
  "snd (snd (fold (totals_step tour m) is s)) =
   fold (\<lambda>i. cost_step m (tour ! i, tour ! (i + 1))) is (snd (snd s))"
  by (induction "is" arbitrary: s) (simp_all add: totals_step_cost)

lemma fold_cost_step:
  "fold (cost_step m) ps acc =
   fold (\<lambda>p acc. plus_js acc (calculateCost (fst p) (snd p) m)) (filter (entry_ok m) ps) acc"
  by (induction ps arbitrary: acc) (simp_all add: cost_step_def)

lemma calculateRouteTotals_cost:
  "snd (snd (calculateRouteTotals tour m)) =
   sum_costs m (filter (entry_ok m) (consecutive_pairs tour))"
proof -
  have "snd (snd (calculateRouteTotals tour m)) =
        fold (cost_step m \<circ> (\<lambda>i. (tour ! i, tour ! (i + 1)))) [0..<length tour - 1] (Fin 0)"
    by (simp add: calculateRouteTotals_def totals_fold_cost comp_def)
  also have "\<dots> = fold (cost_step m) (map (\<lambda>i. (tour ! i, tour ! (i + 1))) [0..<length tour - 1]) (Fin 0)"
    by (simp only: fold_map)
  also have "\<dots> = fold (cost_step m) (consecutive_pairs tour) (Fin 0)"
    by (simp only: index_pairs)
  finally show ?thesis
    by (simp only: fold_cost_step sum_costs_def)
qed

lemma optimizeRoute_long:
  assumes "2 < length stops" and "optimizeRoute stops m = Inr r"
  shows "(totalDistance r, totalTime r, totalCost r) = calculateRouteTotals (order r) m"
  using assms
  by (auto simp: optimizeRoute_def Let_def split: option.splits prod.splits)

lemma optimizeRoute_with_base:
  assumes "2 < length stops" and "\<exists>l \<in> set stops. isBase l = Some True"
  shows "\<exists>r. optimizeRoute stops m = Inr r"
proof -
  from assms(2) obtain base where b: "find (\<lambda>l. truthy (isBase l)) stops = Some base"
    by (cases "find (\<lambda>l. truthy (isBase l)) stops") (auto simp: find_None_iff truthy_def)
  let ?tour = "nearestNeighborTSP base (filter (\<lambda>l. \<not> truthy (isBase l)) stops) m"
  obtain td tt tc where "calculateRouteTotals ?tour m = (td, tt, tc)"
    by (cases "calculateRouteTotals ?tour m")
  with assms(1) b show ?thesis
    by (simp add: optimizeRoute_def Let_def)
qed

text \<open>
  C7, amended. For a list of more than two stops with a flagged base, \<open>totalCost\<close> is the
  sum of the cost-model values over those consecutive pairs of the returned order whose
  matrix entry is present with status \<open>OK\<close>; a pair without such an entry adds nothing.
  When every consecutive pair has such an entry, \<open>totalCost\<close> is the total tour cost that
  \<open>calculateRouteCost\<close> computes.
\<close>

theorem optimizeRoute_totalCost:
  assumes "2 < length stops" and "\<exists>l \<in> set stops. isBase l = Some True"
  shows "\<exists>r. optimizeRoute stops m = Inr r \<and>
      totalCost r = sum_costs m (filter (entry_ok m) (consecutive_pairs (order r))) \<and>
      (list_all (entry_ok m) (consecutive_pairs (order r)) \<longrightarrow>
         totalCost r = calculateRouteCost (order r) m)"
proof -
  from optimizeRoute_with_base [OF assms] obtain r where r: "optimizeRoute stops m = Inr r"
    by blast
  from optimizeRoute_long [OF assms(1) r]
  have "totalCost r = snd (snd (calculateRouteTotals (order r) m))"
    by (metis snd_conv)
  then have c: "totalCost r = sum_costs m (filter (entry_ok m) (consecutive_pairs (order r)))"
    by (simp only: calculateRouteTotals_cost)
  have "totalCost r = calculateRouteCost (order r) m"
    if "list_all (entry_ok m) (consecutive_pairs (order r))"
  proof -
    from that have "filter (entry_ok m) (consecutive_pairs (order r)) = consecutive_pairs (order r)"
      by (simp add: list_all_iff)
    with c show ?thesis
      by (simp add: calculateRouteCost_pairs)
  qed
  with r c show ?thesis by blast
qed


lemma scenario_tour:
  "nearestNeighborTSP (mkLocation ''B'' (Some True))
     [mkLocation ''D1'' None, mkLocation ''D2'' (Some False)] scenario_matrix =
     [''B'', ''D1'', ''D2'', ''B'']"
  by (simp add: nn_eval)

lemma scenario_tour_empty:
  "nearestNeighborTSP (mkLocation ''B'' (Some True))
     [mkLocation ''D1'' None, mkLocation ''D2'' (Some False)] Map.empty =
     [''B'', ''D1'', ''D2'', ''B'']"
  by (simp add: nn_eval)

lemma scenario_result:
  "optimizeRoute scenario_stops scenario_matrix =
     Inr \<lparr>order = [''B'', ''D1'', ''D2'', ''B''],
          totalDistance = Fin 7, totalTime = Fin 7, totalCost = Fin 7\<rparr>"
proof -
  have "calculateRouteTotals [''B'', ''D1'', ''D2'', ''B''] scenario_matrix = (Fin 7, Fin 7, Fin 7)"
    by (simp add: calculateRouteTotals_def totals_step_def Let_def upt_rec lookup_def
        calculateCost_def scenario_matrix_def mkElement_def DISTANCE_WEIGHT_def TIME_WEIGHT_def
        not_overflow_small)
  then show ?thesis
    using scenario_tour
    by (simp add: optimizeRoute_def scenario_stops_def truthy_def Let_def)
       (simp add: mkLocation_def)
qed

lemma scenario_result_empty:
  "optimizeRoute scenario_stops Map.empty =
     Inr \<lparr>order = [''B'', ''D1'', ''D2'', ''B''],
          totalDistance = Fin 0, totalTime = Fin 0, totalCost = Fin 0\<rparr>"
proof -
  have "calculateRouteTotals [''B'', ''D1'', ''D2'', ''B''] Map.empty = (Fin 0, Fin 0, Fin 0)"
    by (simp add: calculateRouteTotals_def totals_step_def Let_def upt_rec lookup_def)
  then show ?thesis
    using scenario_tour_empty
    by (simp add: optimizeRoute_def scenario_stops_def truthy_def Let_def)
       (simp add: mkLocation_def)
qed

text \<open>
  C7, as the specification states it, fails when a leg of the tour has no usable entry:
  with an empty matrix every leg has infinite cost, and \<open>totalCost\<close> is zero.
\<close>

theorem optimizeRoute_totalCost_counterexample:
  "2 < length scenario_stops \<and>
   optimizeRoute scenario_stops Map.empty =
     Inr \<lparr>order = [''B'', ''D1'', ''D2'', ''B''],
          totalDistance = Fin 0, totalTime = Fin 0, totalCost = Fin 0\<rparr> \<and>
   calculateRouteCost [''B'', ''D1'', ''D2'', ''B''] Map.empty = Infinity"
  using scenario_result_empty
  by (simp add: calculateRouteCost_def calculateCost_def lookup_def upt_rec scenario_stops_def)

theorem optimizeRoute_totalCost_witness:
  "2 < length scenario_stops \<and>
   (\<exists>r. optimizeRoute scenario_stops scenario_matrix = Inr r \<and> totalCost r = Fin 7 \<and>
        sum_costs scenario_matrix
          (filter (entry_ok scenario_matrix) (consecutive_pairs (order r))) = Fin 7)"
proof -
  have h: "2 < length scenario_stops" "\<exists>l \<in> set scenario_stops. isBase l = Some True"
    by (simp_all add: scenario_stops_def mkLocation_def)
  from optimizeRoute_totalCost [OF h, of scenario_matrix]
  obtain r where "optimizeRoute scenario_stops scenario_matrix = Inr r"
    "totalCost r = sum_costs scenario_matrix
       (filter (entry_ok scenario_matrix) (consecutive_pairs (order r)))"
    by blast
  then show ?thesis
    using h(1) scenario_result by auto
qed

section \<open>Finiteness of the totals\<close>



























section \<open>2-opt refinement\<close>

lemma length_swap2Opt: "length (swap2Opt r i j) = length r"
  by (simp add: swap2Opt_def Let_def)

lemma mset_take_drop: "mset (take n xs) + mset (drop n xs) = mset xs"
  by (simp only: mset_append [symmetric] append_take_drop_id)

lemma mset_swap2Opt: "mset (swap2Opt r i j) = mset r"
proof -
  have "mset (swap2Opt r i j) =
        mset (take i r) + (mset (take (j + 1 - i) (drop i r)) + mset (drop (j + 1 - i) (drop i r)))"
    by (simp add: swap2Opt_def Let_def add.commute)
  also have "\<dots> = mset (take i r) + mset (drop i r)"
    by (simp only: mset_take_drop)
  finally show ?thesis
    by (simp only: mset_take_drop)
qed

lemma hd_swap2Opt: "1 \<le> i \<Longrightarrow> hd (swap2Opt r i j) = hd r"
  by (cases r; cases i) (simp_all add: swap2Opt_def Let_def)

lemma last_swap2Opt: "i \<le> j \<Longrightarrow> j + 1 < length r \<Longrightarrow> last (swap2Opt r i j) = last r"
  by (simp add: swap2Opt_def Let_def)

lemma opt_body_inv:
  assumes "opt_inv route m s" and "1 \<le> i" and "i \<le> j" and "j + 1 < length route"
  shows "opt_inv route m (opt_body m i j s)"
proof -
  obtain b c f where s: "s = (b, c, f)" by (cases s)
  with assms(1) have "length b = length route" by (simp add: opt_inv_def)
  with assms show ?thesis
    by (simp add: s opt_inv_def opt_body_def Let_def length_swap2Opt mset_swap2Opt
        hd_swap2Opt last_swap2Opt)
qed

lemma opt_progress_refl: "opt_progress s s"
  by (simp add: opt_progress_def)

lemma opt_progress_trans: "opt_progress s s' \<Longrightarrow> opt_progress s' s'' \<Longrightarrow> opt_progress s s''"
  by (auto simp: opt_progress_def intro: lt_js_trans)

lemma opt_body_progress: "opt_progress s (opt_body m i j s)"
  by (cases s) (simp add: opt_progress_def opt_body_def Let_def)

lemma opt_pass_inv:
  assumes "opt_inv route m s"
  shows "opt_inv route m (opt_pass (length route) m s)"
  unfolding opt_pass_def
proof (rule fold_invariant [where I = "opt_inv route m"])
  show "opt_inv route m s" by (rule assms)
next
  fix i s'
  assume i: "i \<in> set [1..<length route - 2]" and s': "opt_inv route m s'"
  show "opt_inv route m (fold (opt_body m i) [i + 1..<length route - 1] s')"
  proof (rule fold_invariant [where I = "opt_inv route m"])
    show "opt_inv route m s'" by (rule s')
  next
    fix j s''
    assume "j \<in> set [i + 1..<length route - 1]" and "opt_inv route m s''"
    with i show "opt_inv route m (opt_body m i j s'')"
      by (intro opt_body_inv) auto
  qed
qed

lemma opt_pass_progress: "opt_progress s (opt_pass n m s)"
  unfolding opt_pass_def
proof (rule fold_invariant [where I = "opt_progress s"])
  show "opt_progress s s" by (rule opt_progress_refl)
next
  fix i s'
  assume s': "opt_progress s s'"
  show "opt_progress s (fold (opt_body m i) [i + 1..<n - 1] s')"
  proof (rule fold_invariant [where I = "opt_progress s"])
    show "opt_progress s s'" by (rule s')
  next
    fix j s''
    assume "opt_progress s s''"
    then show "opt_progress s (opt_body m i j s'')"
      using opt_body_progress by (rule opt_progress_trans)
  qed
qed


lemma opt_while_unfold:
  "opt_pass n m (b, c, False) = (b', c', imp) \<Longrightarrow>
   opt_while n m b c = (if imp then opt_while n m b' c' else Some b')"
  by (subst opt_while.simps) simp

lemma finite_rearrangements: "finite {p. mset p = mset route \<and> Q p}"
  by (rule finite_subset [OF _ mset_eq_finite [of route]]) auto

lemma opt_while_result:
  assumes "opt_inv route m (b, c, False)"
  shows "\<exists>r'. opt_while (length route) m b c = Some r' \<and>
      opt_inv route m (r', calculateRouteCost r' m, False) \<and>
      le_js (calculateRouteCost r' m) c \<and>
      opt_pass (length route) m (r', calculateRouteCost r' m, False) =
        (r', calculateRouteCost r' m, False)"
  using assms
proof (induction "card {p. mset p = mset route \<and> lt_js (calculateRouteCost p m) c}"
    arbitrary: b c rule: less_induct)
  case less
  let ?n = "length route"
  obtain b' c' imp where pass: "opt_pass ?n m (b, c, False) = (b', c', imp)"
    by (cases "opt_pass ?n m (b, c, False)")
  from less.prems have c: "c = calculateRouteCost b m"
    by (simp add: opt_inv_def)
  from opt_pass_inv [OF less.prems] pass have inv': "opt_inv route m (b', c', imp)"
    by simp
  from opt_pass_progress [of "(b, c, False)" ?n m] pass
  have prog: "b' = b \<and> c' = c \<and> \<not> imp \<or> imp \<and> lt_js c' c"
    by (auto simp: opt_progress_def)
  note unfold = opt_while_unfold [OF pass]
  show ?case
  proof (cases imp)
    case False
    with prog have same: "b' = b" "c' = c" by auto
    have "opt_while ?n m b c = Some b"
      using unfold False same by simp
    moreover have "opt_inv route m (b, calculateRouteCost b m, False)"
      using less.prems c by simp
    moreover have "le_js (calculateRouteCost b m) c"
      using c by (simp add: le_js_refl)
    moreover have "opt_pass ?n m (b, calculateRouteCost b m, False) = (b, calculateRouteCost b m, False)"
      using pass same False c by simp
    ultimately show ?thesis by blast
  next
    case True
    with prog have lt: "lt_js c' c" by auto
    from inv' have b': "mset b' = mset route" "c' = calculateRouteCost b' m"
      by (simp_all add: opt_inv_def)
    let ?S = "\<lambda>x. {p. mset p = mset route \<and> lt_js (calculateRouteCost p m) x}"
    have "?S c' \<subseteq> ?S c"
      using lt by (auto intro: lt_js_trans)
    moreover have "b' \<in> ?S c" "b' \<notin> ?S c'"
      using b' lt by (auto simp: lt_js_irrefl)
    ultimately have "?S c' \<subset> ?S c" by blast
    then have "card (?S c') < card (?S c)"
      by (intro psubset_card_mono finite_rearrangements)
    moreover from inv' True have "opt_inv route m (b', c', False)"
      by (simp add: opt_inv_def)
    ultimately obtain r' where r': "opt_while ?n m b' c' = Some r'"
      "opt_inv route m (r', calculateRouteCost r' m, False)"
      "le_js (calculateRouteCost r' m) c'"
      "opt_pass ?n m (r', calculateRouteCost r' m, False) = (r', calculateRouteCost r' m, False)"
      using less.hyps by blast
    from r'(3) lt have "le_js (calculateRouteCost r' m) c"
      by (blast intro: le_lt_js_trans lt_js_imp_le)
    moreover have "opt_while ?n m b c = Some r'"
      using unfold True r'(1) by simp
    ultimately show ?thesis
      using r'(2,4) by blast
  qed
qed

lemma optimize2Opt_result:
  "\<exists>r'. optimize2Opt route m = Some r' \<and>
      length r' = length route \<and> mset r' = mset route \<and>
      hd r' = hd route \<and> last r' = last route \<and>
      le_js (calculateRouteCost r' m) (calculateRouteCost route m) \<and>
      optimize2Opt r' m = Some r'"
proof -
  have "opt_inv route m (route, calculateRouteCost route m, False)"
    by (simp add: opt_inv_def)
  from opt_while_result [OF this]
  obtain r' where r': "opt_while (length route) m route (calculateRouteCost route m) = Some r'"
    "opt_inv route m (r', calculateRouteCost r' m, False)"
    "le_js (calculateRouteCost r' m) (calculateRouteCost route m)"
    "opt_pass (length route) m (r', calculateRouteCost r' m, False) =
       (r', calculateRouteCost r' m, False)"
    by blast
  from r'(2) have shape: "length r' = length route" "mset r' = mset route"
    "hd r' = hd route" "last r' = last route"
    by (simp_all add: opt_inv_def)
  have "optimize2Opt r' m = Some r'"
    using opt_while_unfold [OF r'(4)] shape(1) by (simp add: optimize2Opt_def)
  with r'(1,3) shape show ?thesis
    by (simp add: optimize2Opt_def)
qed

text \<open>
  C8. \<open>optimize2Opt\<close> returns for every route and every matrix, whatever entries are
  missing or not \<open>OK\<close>: every pass that accepts a move strictly lowers the cost of the
  best route, which stays a rearrangement of the input route, and a route has finitely
  many rearrangements.
\<close>

theorem optimize2Opt_terminates: "\<exists>r'. optimize2Opt route m = Some r'"
  using optimize2Opt_result [of route m] by blast

text \<open>
  C2. The total tour cost of the route that \<open>optimize2Opt\<close> returns is at most the total
  tour cost of its input, and \<open>optimize2Opt\<close> applied to the route it returned returns
  that same route.
\<close>

theorem optimize2Opt_cost_monotone_idempotent:
  "\<exists>r'. optimize2Opt route m = Some r' \<and>
      le_js (calculateRouteCost r' m) (calculateRouteCost route m) \<and>
      optimize2Opt r' m = Some r'"
  using optimize2Opt_result [of route m] by blast

text \<open>
  C6. The route that \<open>optimize2Opt\<close> returns has the length of its input, the same
  element at position \<open>0\<close> and at the last position, and the same elements with the
  same multiplicities: only the order of the interior positions can differ.
\<close>

theorem optimize2Opt_preserves:
  "\<exists>r'. optimize2Opt route m = Some r' \<and>
      length r' = length route \<and>
      r' ! 0 = route ! 0 \<and>
      r' ! (length route - 1) = route ! (length route - 1) \<and>
      mset r' = mset route"
proof -
  from optimize2Opt_result [of route m]
  obtain r' where r': "optimize2Opt route m = Some r'" "length r' = length route"
    "mset r' = mset route" "hd r' = hd route" "last r' = last route"
    by blast
  have "r' ! 0 = route ! 0 \<and> r' ! (length route - 1) = route ! (length route - 1)"
  proof (cases "route = []")
    case True
    with r'(2) show ?thesis by simp
  next
    case False
    with r'(2) have "r' \<noteq> []" by auto
    with False r' show ?thesis
      by (simp add: hd_conv_nth last_conv_nth)
  qed
  with r' show ?thesis by blast
qed

lemmas opt_eval = optimize2Opt_def opt_pass_def opt_body_def swap2Opt_def
  calculateRouteCost_def calculateCost_def lookup_def mkElement_def
  DISTANCE_WEIGHT_def TIME_WEIGHT_def upt_rec Let_def not_overflow_small

text \<open>
  Two runs: a crossing tour of cost 15 is turned into the tour of cost 3 by one accepted
  move, and the tour of the specification's scenario is returned unchanged.
\<close>

lemma crossing_costs:
  "calculateRouteCost [''B'', ''D2'', ''D1'', ''B''] crossing_matrix = Fin 15"
  "calculateRouteCost [''B'', ''D1'', ''D2'', ''B''] crossing_matrix = Fin 3"
  by (simp_all add: opt_eval crossing_matrix_def)

lemma optimize2Opt_uncrosses:
  "optimize2Opt [''B'', ''D2'', ''D1'', ''B''] crossing_matrix = Some [''B'', ''D1'', ''D2'', ''B'']"
proof -
  have 1: "opt_pass (length [''B'', ''D2'', ''D1'', ''B'']) crossing_matrix ([''B'', ''D2'', ''D1'', ''B''], Fin 15, False) =
           ([''B'', ''D1'', ''D2'', ''B''], Fin 3, True)"
    by (simp add: opt_eval crossing_matrix_def)
  have 2: "opt_pass (length [''B'', ''D2'', ''D1'', ''B'']) crossing_matrix ([''B'', ''D1'', ''D2'', ''B''], Fin 3, False) =
           ([''B'', ''D1'', ''D2'', ''B''], Fin 3, False)"
    by (simp add: opt_eval crossing_matrix_def)
  show ?thesis
    using opt_while_unfold [OF 1] opt_while_unfold [OF 2]
    by (simp add: optimize2Opt_def crossing_costs)
qed

lemma scenario_unchanged:
  "optimize2Opt [''B'', ''D1'', ''D2'', ''B''] scenario_matrix = Some [''B'', ''D1'', ''D2'', ''B'']"
proof -
  have c: "calculateRouteCost [''B'', ''D1'', ''D2'', ''B''] scenario_matrix = Fin 7"
    by (simp add: opt_eval scenario_matrix_def)
  have 1: "opt_pass (length [''B'', ''D1'', ''D2'', ''B'']) scenario_matrix ([''B'', ''D1'', ''D2'', ''B''], Fin 7, False) =
           ([''B'', ''D1'', ''D2'', ''B''], Fin 7, False)"
    by (simp add: opt_eval scenario_matrix_def)
  show ?thesis
    using opt_while_unfold [OF 1]
    by (simp add: optimize2Opt_def c)
qed

end
